theory Spec2Isabelle
  imports Complex_Main
begin

section \<open>Vectors (vec.go)\<close>

text \<open>
  The Go type \<^verbatim>\<open>float64\<close> is modelled by the real number a finite value denotes:
  arithmetic is exact, and NaN, the infinities and rounding are outside the model.
  Every counterexample below uses small dyadic numbers, on which the float64
  computation is exact and agrees with the real one.
\<close>

record Vec =
  X :: real
  Y :: real

definition Mag :: "Vec \<Rightarrow> real" where
  "Mag v = sqrt (X v * X v + Y v * Y v)"

text \<open>
  \<^verbatim>\<open>Normalise\<close> divides by the magnitude without a check. For the zero vector Go
  yields NaN components; HOL's \<open>x / 0 = 0\<close> does not say that, so every statement
  about \<open>Normalise\<close> below is made for a nonzero magnitude only.
\<close>

definition Normalise :: "Vec \<Rightarrow> Vec" where
  "Normalise v = (let mag = Mag v in \<lparr>X = X v / mag, Y = Y v / mag\<rparr>)"

definition SetMag :: "Vec \<Rightarrow> real \<Rightarrow> Vec" where
  "SetMag v newMag = (let uv = Normalise v in \<lparr>X = X uv * newMag, Y = Y uv * newMag\<rparr>)"

definition Dist :: "Vec \<Rightarrow> Vec \<Rightarrow> real" where
  "Dist v1 v2 =
     (let aSqr = (X v1 - X v2) ^ 2;
          bSqr = (Y v1 - Y v2) ^ 2
      in sqrt (aSqr + bSqr))"

definition Sub :: "Vec \<Rightarrow> Vec \<Rightarrow> Vec" where
  "Sub v1 v2 = \<lparr>X = X v1 - X v2, Y = Y v1 - Y v2\<rparr>"

definition Add :: "Vec \<Rightarrow> Vec \<Rightarrow> Vec" where
  "Add v1 v2 = \<lparr>X = X v1 + X v2, Y = Y v1 + Y v2\<rparr>"

definition Dot :: "Vec \<Rightarrow> Vec \<Rightarrow> real" where
  "Dot v1 v2 = X v1 * X v2 + Y v1 * X v2"

section \<open>Shapes (shape.go)\<close>

text \<open>
  Go's \<^verbatim>\<open>int(math.Round(x))\<close>: the nearest integer, halves rounded away from zero.
  Go's \<^verbatim>\<open>int\<close> is modelled by the unbounded integers.
\<close>

definition go_round :: "real \<Rightarrow> int" where
  "go_round x = (if x < 0 then \<lceil>x - 1 / 2\<rceil> else \<lfloor>x + 1 / 2\<rfloor>)"

datatype Colour = RGBA nat nat nat nat

record Style =
  Colour :: Colour
  Thickness :: real

record shape =
  Pos :: Vec
  Direction :: Vec
  w :: real
  h :: real
  style :: Style

definition WithStyle :: "Style \<Rightarrow> shape \<Rightarrow> shape" where
  "WithStyle st = (\<lambda>s. s\<lparr>style := st\<rparr>)"

definition defaultShape :: "real \<Rightarrow> real \<Rightarrow> Vec \<Rightarrow> shape" where
  "defaultShape width height pos =
     \<lparr>Pos = pos,
      Direction = Normalise \<lparr>X = 0, Y = - 1\<rparr>,
      w = width,
      h = height,
      style = \<lparr>Colour = RGBA 255 255 255 255, Thickness = 0\<rparr>\<rparr>"

definition newShape :: "real \<Rightarrow> real \<Rightarrow> Vec \<Rightarrow> (shape \<Rightarrow> shape) list \<Rightarrow> shape" where
  "newShape width height pos opts = fold (\<lambda>opt s. opt s) opts (defaultShape width height pos)"

definition Width :: "shape \<Rightarrow> real" where
  "Width s = w s"

definition Height :: "shape \<Rightarrow> real" where
  "Height s = h s"

definition Move :: "shape \<Rightarrow> Vec \<Rightarrow> shape" where
  "Move s mov = s\<lparr>Pos := \<lparr>X = X (Pos s) + X mov, Y = Y (Pos s) + Y mov\<rparr>\<rparr>"

definition SetPos :: "shape \<Rightarrow> Vec \<Rightarrow> shape" where
  "SetPos s v = s\<lparr>Pos := v\<rparr>"

text \<open>
  \<^verbatim>\<open>Rect\<close> and \<^verbatim>\<open>Circle\<close> are structs that embed a \<^verbatim>\<open>*shape\<close> and nothing else.
  \<^verbatim>\<open>NewRect\<close> accepts options and passes none of them on to \<^verbatim>\<open>newShape\<close>.
\<close>

type_synonym Rect = shape
type_synonym Circle = shape

definition NewRect :: "real \<Rightarrow> real \<Rightarrow> Vec \<Rightarrow> (shape \<Rightarrow> shape) list \<Rightarrow> Rect" where
  "NewRect width height pos opts = newShape width height pos []"

definition NewCircle :: "real \<Rightarrow> Vec \<Rightarrow> (shape \<Rightarrow> shape) list \<Rightarrow> Circle" where
  "NewCircle diameter pos opts = newShape diameter diameter pos opts"

subsection \<open>The frame buffer\<close>

text \<open>
  The types \<^verbatim>\<open>FrameBuffer\<close> and \<^verbatim>\<open>Pixel\<close> are not among the source files. The drawing
  functions therefore take the write primitive \<^verbatim>\<open>SetPixel(row, col, pixel)\<close> as a
  parameter \<open>setPixel\<close>, over any buffer type. Two instances are used: \<open>logPixel\<close>, which
  records the calls in order, and \<open>SetPixel\<close> on the grid the specification describes.
\<close>

type_synonym Pixel = Colour

definition NewPixel :: "Colour \<Rightarrow> Pixel" where
  \<comment> \<open>Modelled from the spec: \<^verbatim>\<open>NewPixel\<close> is missing; a pixel holds a colour value.\<close>
  "NewPixel c = c"

definition logPixel :: "int \<Rightarrow> int \<Rightarrow> Pixel \<Rightarrow> (int \<times> int \<times> Pixel) list \<Rightarrow> (int \<times> int \<times> Pixel) list" where
  "logPixel row col p calls = calls @ [(row, col, p)]"

record FrameBuffer =
  fbWidth :: int
  fbHeight :: int
  pixels :: "int \<times> int \<Rightarrow> Pixel"

definition SetPixel :: "int \<Rightarrow> int \<Rightarrow> Pixel \<Rightarrow> FrameBuffer \<Rightarrow> FrameBuffer" where
  \<comment> \<open>Modelled from the spec: \<^verbatim>\<open>FrameBuffer.SetPixel\<close> is missing; a fixed-size grid
      addressed by row and column, a write out of range is ignored.\<close>
  "SetPixel row col p buf =
     (if 0 \<le> row \<and> row < fbHeight buf \<and> 0 \<le> col \<and> col < fbWidth buf
      then buf\<lparr>pixels := (pixels buf)((row, col) := p)\<rparr>
      else buf)"

subsection \<open>Rect.Draw\<close>

function Rect_Draw :: "(int \<Rightarrow> int \<Rightarrow> Pixel \<Rightarrow> 'buf \<Rightarrow> 'buf) \<Rightarrow> Rect \<Rightarrow> 'buf \<Rightarrow> 'buf" where
  "Rect_Draw setPixel r buf =
     (if Thickness (style r) = 0 then
        fold (\<lambda>i. fold (\<lambda>j.
            let xInt = go_round (X (Pos r)); yInt = go_round (Y (Pos r))
            in setPixel (yInt + j) (xInt + i) (NewPixel (Colour (style r))))
          [0..go_round (h r)])
          [0..go_round (w r)] buf
      else
        (let top = NewRect (w r) (Thickness (style r)) (Pos r)
                     [WithStyle \<lparr>Colour = Colour (style r), Thickness = 0\<rparr>];
             bottom = NewRect (w r) (Thickness (style r))
                     \<lparr>X = X (Pos r), Y = Y (Pos r) + h r - Thickness (style r)\<rparr>
                     [WithStyle \<lparr>Colour = Colour (style r), Thickness = 0\<rparr>];
             left = NewRect (Thickness (style r)) (h r) \<lparr>X = X (Pos r), Y = Y (Pos r)\<rparr>
                     [WithStyle \<lparr>Colour = Colour (style r), Thickness = 0\<rparr>];
             right = NewRect (Thickness (style r)) (h r)
                     \<lparr>X = X (Pos r) + w r - Thickness (style r), Y = Y (Pos r)\<rparr>
                     [WithStyle \<lparr>Colour = Colour (style r), Thickness = 0\<rparr>]
         in Rect_Draw setPixel right (Rect_Draw setPixel left
              (Rect_Draw setPixel bottom (Rect_Draw setPixel top buf)))))"
  by pat_completeness auto
termination
  by (relation "measure (\<lambda>(setPixel, r, buf). if Thickness (style r) = 0 then 0 else 1)")
     (auto simp: NewRect_def newShape_def defaultShape_def)

declare Rect_Draw.simps [simp del]

subsection \<open>Circle.Draw\<close>

text \<open>
  A loop \<^verbatim>\<open>for i := lo; i <= hi; i++\<close> over a float64 counter visits \<open>lo, lo + 1, ...\<close> as
  long as the counter is at most \<open>hi\<close>; \<open>steps lo hi\<close> is the list of the values visited.
\<close>

function steps :: "real \<Rightarrow> real \<Rightarrow> real list" where
  "steps i hi = (if i \<le> hi then i # steps (i + 1) hi else [])"
  by pat_completeness auto
termination
proof (relation "measure (\<lambda>(i, hi). nat (\<lfloor>hi - i\<rfloor> + 1))")
  show "wf (measure (\<lambda>(i, hi). nat (\<lfloor>hi - i\<rfloor> + 1)))"
    by simp
next
  fix i hi :: real
  assume "i \<le> hi"
  then have "0 \<le> \<lfloor>hi - i\<rfloor>"
    by simp
  moreover have "\<lfloor>hi - (i + 1)\<rfloor> = \<lfloor>hi - i\<rfloor> - 1"
    by (simp add: diff_diff_eq [symmetric] del: diff_diff_eq)
  ultimately show "((i + 1, hi), (i, hi)) \<in> measure (\<lambda>(i, hi). nat (\<lfloor>hi - i\<rfloor> + 1))"
    by simp
qed

declare steps.simps [simp del]

datatype outcome = Returned | Panicked string

text \<open>What \<^verbatim>\<open>fmt.Println\<close> writes: one line, its arguments in order.\<close>

datatype token = S string | F real

type_synonym stdout = "token list list"

record 'buf Drawn =
  drawOutcome :: outcome
  drawBuf :: 'buf
  drawOut :: stdout

definition Circle_Draw ::
  "(int \<Rightarrow> int \<Rightarrow> Pixel \<Rightarrow> 'buf \<Rightarrow> 'buf) \<Rightarrow> Circle \<Rightarrow> 'buf \<Rightarrow> stdout \<Rightarrow> 'buf Drawn" where
  "Circle_Draw setPixel c buf out =
     (if w c \<noteq> h c then
        \<lparr>drawOutcome = Panicked ''circle width and height must match'',
         drawBuf = buf,
         drawOut = out @ [[S ''w:'', F (w c), S ''h:'', F (h c)]]\<rparr>
      else
        (let radius = w c / 2;
             bbBoxPos = \<lparr>X = X (Pos c) - radius, Y = Y (Pos c) - radius\<rparr>;
             bbox = NewRect (w c) (h c) bbBoxPos []
         in \<lparr>drawOutcome = Returned,
             drawBuf =
               fold (\<lambda>i. fold (\<lambda>j buf.
                   let dist = Dist (Pos c) \<lparr>X = i, Y = j\<rparr>;
                       jInt = go_round j; iInt = go_round i
                   in if Thickness (style c) = 0 then
                        (if dist \<le> radius
                         then setPixel jInt iInt (NewPixel (Colour (style c))) buf else buf)
                      else
                        (if dist \<ge> radius - Thickness (style c) \<and> dist \<le> radius
                         then setPixel jInt iInt (NewPixel (Colour (style c))) buf else buf))
                 (steps (Y (Pos bbox)) (Y (Pos bbox) + h bbox)))
                 (steps (X (Pos bbox)) (X (Pos bbox) + w bbox)) buf,
             drawOut = out\<rparr>))"

section \<open>Buttons (button.go)\<close>

text \<open>
  The types \<^verbatim>\<open>MouseState\<close> and \<^verbatim>\<open>Window\<close> are not among the source files.
\<close>

datatype MouseState = NoClick | LeftClick | RightClick | OtherClick nat
  \<comment> \<open>Modelled from the spec: \<^verbatim>\<open>MouseState\<close> is missing; the enumeration
      \<open>NoClick, LeftClick, RightClick, ...\<close>, whose first value is the zero value.\<close>

record Window =
  MouseButtonState :: MouseState
  MouseLocation :: Vec
  \<comment> \<open>Modelled from the spec: \<^verbatim>\<open>Window\<close> is missing; its two polls
      \<^verbatim>\<open>MouseButtonState()\<close> and \<^verbatim>\<open>MouseLocation()\<close> read the current input state.\<close>

text \<open>
  What a callback can act on: the window whose input the button polls, and standard
  output. A callback \<^verbatim>\<open>func(MouseState)\<close> is a function of the mouse state that
  transforms this world and either returns or panics; a nil callback is one that panics
  at once.
\<close>

record World =
  win :: Window
  stdout :: stdout

text \<open>The interface \<^verbatim>\<open>hoverable\<close>: its method \<^verbatim>\<open>IsWithin\<close> is all that a button calls here.\<close>

record hoverable =
  IsWithin :: "Vec \<Rightarrow> bool"

type_synonym ButtonBehaviour = int

definition OnAll :: ButtonBehaviour where "OnAll = 0"
definition OnPress :: ButtonBehaviour where "OnPress = 1"
definition OnRelease :: ButtonBehaviour where "OnRelease = 2"
definition OnPressAndRelease :: ButtonBehaviour where "OnPressAndRelease = 3"
definition OnHold :: ButtonBehaviour where "OnHold = 4"
definition OnHover :: ButtonBehaviour where "OnHover = 5"

text \<open>The label (\<^verbatim>\<open>*Text\<close>, a type that is not among the source files) is left out.\<close>

record Button =
  Shape :: hoverable
  CB :: "MouseState \<Rightarrow> World \<Rightarrow> outcome \<times> World"
  Trigger :: MouseState
  Behaviour :: ButtonBehaviour
  prevMouseState :: MouseState
  prevMouseLoc :: Vec

definition NewButton :: "hoverable \<Rightarrow> string \<Rightarrow> Button" where
  "NewButton shape fontPath =
     \<lparr>Shape = shape,
      CB = (\<lambda>_ wd.
             (Returned, wd\<lparr>stdout := stdout wd @ [[S ''Warning: Button callback not configured'']]\<rparr>)),
      Trigger = LeftClick,
      Behaviour = OnAll,
      prevMouseState = NoClick,
      prevMouseLoc = \<lparr>X = 0, Y = 0\<rparr>\<rparr>"

definition SetCallback :: "Button \<Rightarrow> (MouseState \<Rightarrow> World \<Rightarrow> outcome \<times> World) \<Rightarrow> Button" where
  "SetCallback b callback = b\<lparr>CB := callback\<rparr>"

text \<open>
  The result of \<^verbatim>\<open>Update\<close>: whether it returned or panicked, the button and the world
  as it left them, and the arguments of the callback invocations it made, in order.
\<close>

record Updated =
  outcome :: outcome
  button :: Button
  world :: World
  calls :: "MouseState list"

text \<open>
  What a branch of the switch leaves behind: whether the callback, if one was called,
  returned or panicked, the world, and the callback invocations made.
\<close>

definition callCB :: "Button \<Rightarrow> MouseState \<Rightarrow> World \<Rightarrow> outcome \<times> World \<times> MouseState list" where
  "callCB b s wd = (case CB b s wd of (oc, wd') \<Rightarrow> (oc, wd', [s]))"

definition noCall :: "World \<Rightarrow> outcome \<times> World \<times> MouseState list" where
  "noCall wd = (Returned, wd, [])"

definition storeHistory :: "Button \<Rightarrow> outcome \<times> World \<times> MouseState list \<Rightarrow> Updated" where
  \<comment> \<open>the two assignments that end \<^verbatim>\<open>Update\<close>: both poll the window again; a panic
      of the callback unwinds \<^verbatim>\<open>Update\<close> before it reaches them\<close>
  "storeHistory b = (\<lambda>(oc, wd, cs).
     if oc = Returned then
       \<lparr>outcome = Returned,
        button = b\<lparr>prevMouseState := MouseButtonState (win wd),
                   prevMouseLoc := MouseLocation (win wd)\<rparr>,
        world = wd,
        calls = cs\<rparr>
     else
       \<lparr>outcome = oc, button = b, world = wd, calls = cs\<rparr>)"

definition Update :: "Button \<Rightarrow> World \<Rightarrow> Updated" where
  "Update b wd =
     (let currentMouseState = MouseButtonState (win wd);
          hovering = IsWithin (Shape b) (MouseLocation (win wd))
      in if Behaviour b = OnAll then
           storeHistory b (callCB b currentMouseState wd)
         else if Behaviour b = OnHover then
           storeHistory b (if hovering then callCB b currentMouseState wd else noCall wd)
         else if Behaviour b = OnPress then
           storeHistory b
             (if hovering \<and> (prevMouseState b = NoClick \<and> currentMouseState = Trigger b)
              then callCB b currentMouseState wd else noCall wd)
         else if Behaviour b = OnRelease then
           storeHistory b
             (if hovering \<and> (prevMouseState b = Trigger b \<and> currentMouseState = NoClick)
              then callCB b currentMouseState wd else noCall wd)
         else if Behaviour b = OnPressAndRelease then
           storeHistory b
             (if hovering \<and> (prevMouseState b \<noteq> currentMouseState)
              then callCB b currentMouseState wd else noCall wd)
         else if Behaviour b = OnHold then
           storeHistory b
             (if hovering \<and> (currentMouseState = Trigger b)
              then callCB b currentMouseState wd else noCall wd)
         else
           \<lparr>outcome = Panicked ''unsupported button behaviour'',
            button = b, world = wd, calls = []\<rparr>)"

definition IsHovering :: "Button \<Rightarrow> bool" where
  "IsHovering b = IsWithin (Shape b) (prevMouseLoc b)"


section \<open>Example inputs\<close>

text \<open>
  A button on the square \<open>[0, 10] \<times> [0, 10]\<close> that fires on a left press, a world in
  which the mouse is in state \<open>s\<close> at \<open>(x, y)\<close>, and a callback that changes the
  window's input state (as one that processes pending input events does).
\<close>

definition pressButton :: Button where
  "pressButton =
     \<lparr>Shape = \<lparr>IsWithin = (\<lambda>v. 0 \<le> X v \<and> X v \<le> 10 \<and> 0 \<le> Y v \<and> Y v \<le> 10)\<rparr>,
      CB = (\<lambda>s wd. (Returned, wd\<lparr>stdout := stdout wd @ [[S ''pressed'']]\<rparr>)),
      Trigger = LeftClick,
      Behaviour = OnPress,
      prevMouseState = LeftClick,
      prevMouseLoc = \<lparr>X = 0, Y = 0\<rparr>\<rparr>"

definition frame :: "MouseState \<Rightarrow> real \<Rightarrow> real \<Rightarrow> World" where
  "frame s x y = \<lparr>win = \<lparr>MouseButtonState = s, MouseLocation = \<lparr>X = x, Y = y\<rparr>\<rparr>, stdout = []\<rparr>"

definition consumeClick :: "MouseState \<Rightarrow> World \<Rightarrow> outcome \<times> World" where
  "consumeClick s wd =
     (Returned, wd\<lparr>win := \<lparr>MouseButtonState = NoClick, MouseLocation = \<lparr>X = 20, Y = 20\<rparr>\<rparr>\<rparr>)"

text \<open>
  Two outlined circles made by \<^verbatim>\<open>NewCircle\<close>: one whose bounding box starts on a
  half-integer column, one whose bounding box starts on integer coordinates. An option
  that changes a shape's height, and a 4 by 4 frame buffer filled with black.
\<close>

definition offGridCircle :: Circle where
  "offGridCircle =
     NewCircle 2 \<lparr>X = 21 / 2, Y = 10\<rparr> [WithStyle \<lparr>Colour = RGBA 255 0 0 255, Thickness = 1 / 2\<rparr>]"

definition gridCircle :: Circle where
  "gridCircle =
     NewCircle 4 \<lparr>X = 10, Y = 10\<rparr> [WithStyle \<lparr>Colour = RGBA 255 0 0 255, Thickness = 1\<rparr>]"

definition stretch :: "shape \<Rightarrow> shape" where
  "stretch s = s\<lparr>h := h s + 1\<rparr>"

definition blackBuffer :: FrameBuffer where
  "blackBuffer = \<lparr>fbWidth = 4, fbHeight = 4, pixels = (\<lambda>_. RGBA 0 0 0 255)\<rparr>"

section \<open>Properties of the vector operations\<close>

lemma Mag_sq: "Mag v * Mag v = X v * X v + Y v * Y v"
  by (simp add: Mag_def)

lemma Mag_Normalise:
  assumes "Mag v \<noteq> 0"
  shows "Mag (Normalise v) = 1"
proof -
  let ?m = "Mag v"
  have "X (Normalise v) * X (Normalise v) + Y (Normalise v) * Y (Normalise v)
        = (X v * X v + Y v * Y v) / (?m * ?m)"
    by (simp add: Normalise_def Let_def add_divide_distrib)
  also have "\<dots> = 1"
    using assms by (simp add: Mag_sq [symmetric])
  finally show ?thesis
    by (simp add: Mag_def)
qed

lemma Mag_SetMag_abs:
  assumes "Mag v \<noteq> 0"
  shows "Mag (SetMag v m) = \<bar>m\<bar>"
proof -
  let ?u = "Normalise v"
  have "X (SetMag v m) * X (SetMag v m) + Y (SetMag v m) * Y (SetMag v m)
        = (X ?u * X ?u + Y ?u * Y ?u) * (m * m)"
    by (simp add: SetMag_def Let_def algebra_simps)
  also have "X ?u * X ?u + Y ?u * Y ?u = Mag ?u * Mag ?u"
    by (simp add: Mag_sq)
  also have "\<dots> = 1"
    using assms by (simp add: Mag_Normalise)
  finally have "Mag (SetMag v m) = sqrt (m * m)"
    by (simp add: Mag_def)
  then show ?thesis
    by simp
qed

lemma Normalise_SetMag_pos:
  assumes "Mag v \<noteq> 0" and "0 < m"
  shows "Normalise (SetMag v m) = Normalise v"
proof -
  have mag: "Mag (SetMag v m) = m"
    using assms by (simp add: Mag_SetMag_abs)
  have "X (SetMag v m) / m = X (Normalise v)" "Y (SetMag v m) / m = Y (Normalise v)"
    using assms(2) by (simp_all add: SetMag_def Let_def)
  then show ?thesis
    unfolding Normalise_def [of "SetMag v m"] Let_def mag by simp
qed

text \<open>
  C2. \<^verbatim>\<open>Dot(v1, v2)\<close> returns \<open>v1.X*v2.X + v1.Y*v2.X\<close>: the second term reuses
  \<open>v2.X\<close>. This is not the mathematical dot product \<open>v1.X*v2.X + v1.Y*v2.Y\<close>: on the
  unit vector along Y, taken with itself, the function returns 0 and the dot product is 1.
\<close>

theorem Dot_reuses_X:
  "Dot v1 v2 = X v1 * X v2 + Y v1 * X v2
   \<and> Dot \<lparr>X = 0, Y = 1\<rparr> \<lparr>X = 0, Y = 1\<rparr> = 0
   \<and> Dot \<lparr>X = 0, Y = 1\<rparr> \<lparr>X = 0, Y = 1\<rparr> \<noteq> 0 * 0 + 1 * 1"
  by (simp add: Dot_def)

text \<open>
  C8, as stated: for every vector of nonzero magnitude and every scale \<open>m\<close>, the magnitude
  of \<open>SetMag v m\<close> is \<open>m\<close> and its normalisation is that of \<open>v\<close>. It fails for a
  negative scale: \<open>SetMag (1, 0) (-1) = (-1, 0)\<close>, of magnitude 1 and opposite direction.
\<close>

theorem SetMag_negative_counterexample:
  "Mag \<lparr>X = 1, Y = 0\<rparr> \<noteq> 0
   \<and> Mag (SetMag \<lparr>X = 1, Y = 0\<rparr> (- 1)) = 1
   \<and> Mag (SetMag \<lparr>X = 1, Y = 0\<rparr> (- 1)) \<noteq> - 1
   \<and> Normalise (SetMag \<lparr>X = 1, Y = 0\<rparr> (- 1)) = \<lparr>X = - 1, Y = 0\<rparr>
   \<and> Normalise \<lparr>X = 1, Y = 0\<rparr> = \<lparr>X = 1, Y = 0\<rparr>
   \<and> Normalise (SetMag \<lparr>X = 1, Y = 0\<rparr> (- 1)) \<noteq> Normalise \<lparr>X = 1, Y = 0\<rparr>"
  by (simp add: Mag_def SetMag_def Normalise_def)

text \<open>
  C8, amended: for every vector of nonzero magnitude, the magnitude of \<open>SetMag v m\<close> is
  \<open>m\<close> for every scale \<open>m \<ge> 0\<close> (and \<open>\<bar>m\<bar>\<close> in general), and for every scale \<open>m > 0\<close>
  the direction is preserved.
\<close>

theorem SetMag_nonneg_scale:
  assumes "Mag v \<noteq> 0"
  shows "Mag (SetMag v m) = \<bar>m\<bar>
       \<and> (0 \<le> m \<longrightarrow> Mag (SetMag v m) = m)
       \<and> (0 < m \<longrightarrow> Normalise (SetMag v m) = Normalise v)"
  using assms by (simp add: Mag_SetMag_abs Normalise_SetMag_pos)

theorem SetMag_nonneg_scale_witness:
  "Mag \<lparr>X = 3, Y = 4\<rparr> \<noteq> 0 \<and> (0::real) < 10
   \<and> Mag (SetMag \<lparr>X = 3, Y = 4\<rparr> 10) = 10
   \<and> Normalise (SetMag \<lparr>X = 3, Y = 4\<rparr> 10) = Normalise \<lparr>X = 3, Y = 4\<rparr>"
proof -
  have "sqrt 25 = sqrt (5 ^ 2)" by simp
  then have m: "Mag \<lparr>X = 3, Y = 4\<rparr> = 5"
    unfolding Mag_def by (simp del: real_sqrt_eq_iff)
  then have nz: "Mag \<lparr>X = 3, Y = 4\<rparr> \<noteq> 0" by simp
  show ?thesis
    using nz SetMag_nonneg_scale [OF nz, of 10] by simp
qed

section \<open>Properties of the drawing functions\<close>

lemma go_round_of_int [simp]: "go_round (of_int z) = z"
proof (cases "(of_int z :: real) < 0")
  case True
  have "\<lceil>(of_int z :: real) - 1 / 2\<rceil> = z"
    by (rule ceiling_unique) simp_all
  with True show ?thesis by (simp add: go_round_def)
next
  case False
  have "\<lfloor>(of_int z :: real) + 1 / 2\<rfloor> = z"
    by (rule floor_unique) simp_all
  with False show ?thesis by (simp add: go_round_def)
qed

lemma go_round_numeral [simp]: "go_round (numeral n) = numeral n" "go_round 0 = 0" "go_round 1 = 1"
  using go_round_of_int [of "numeral n"] go_round_of_int [of 0] go_round_of_int [of 1]
  by simp_all

lemma fold_logPixel:
  "fold (\<lambda>j buf. if P j then logPixel (f j) (g j) p buf else buf) ys tr
   = tr @ map (\<lambda>j. (f j, g j, p)) (filter P ys)"
  by (induction ys arbitrary: tr) (simp_all add: logPixel_def)

lemma fold_fold_logPixel:
  "fold (\<lambda>i. fold (\<lambda>j buf. if P i j then logPixel (f i j) (g i j) p buf else buf) ys) xs tr
   = tr @ concat (map (\<lambda>i. map (\<lambda>j. (f i j, g i j, p)) (filter (P i) ys)) xs)"
  by (induction xs arbitrary: tr) (simp_all add: fold_logPixel)

lemma set_steps: "set (steps lo hi) = {lo + real k | k. lo + real k \<le> hi}"
proof (induction lo hi rule: steps.induct)
  case (1 i hi)
  show ?case
  proof (cases "i \<le> hi")
    case False
    have "{i + real k | k. i + real k \<le> hi} = {}"
    proof -
      have "\<not> i + real k \<le> hi" for k
        using False by (smt (verit) of_nat_0_le_iff)
      then show ?thesis by simp
    qed
    with False show ?thesis
      by (subst steps.simps) simp
  next
    case True
    have "{i + real k | k. i + real k \<le> hi}
          = insert i {i + 1 + real k | k. i + 1 + real k \<le> hi}" (is "?L = insert i ?R")
    proof (intro set_eqI iffI)
      fix x assume "x \<in> ?L"
      then obtain k where k: "x = i + real k" "i + real k \<le> hi" by blast
      show "x \<in> insert i ?R"
      proof (cases k)
        case 0
        with k show ?thesis by simp
      next
        case (Suc m)
        with k have "x = i + 1 + real m" "i + 1 + real m \<le> hi" by simp_all
        then show ?thesis by blast
      qed
    next
      fix x assume "x \<in> insert i ?R"
      then consider "x = i" | m where "x = i + 1 + real m" "i + 1 + real m \<le> hi" by blast
      then show "x \<in> ?L"
      proof cases
        case 1
        then have "x = i + real 0" "i + real 0 \<le> hi" using True by simp_all
        then show ?thesis by blast
      next
        case 2
        then have "x = i + real (Suc m)" "i + real (Suc m) \<le> hi" by simp_all
        then show ?thesis by blast
      qed
    qed
    with True 1 show ?thesis
      by (subst steps.simps) simp
  qed
qed


lemma set_steps_of_int:
  "(x \<in> set (steps (of_int a) hi)) = (\<exists>z::int. x = of_int z \<and> a \<le> z \<and> of_int z \<le> hi)"
proof
  assume "x \<in> set (steps (of_int a) hi)"
  then obtain k where k: "x = of_int a + real k" "of_int a + real k \<le> hi"
    unfolding set_steps by blast
  then have "x = of_int (a + int k)" "a \<le> a + int k" "of_int (a + int k) \<le> hi"
    by simp_all
  then show "\<exists>z::int. x = of_int z \<and> a \<le> z \<and> of_int z \<le> hi"
    by blast
next
  assume "\<exists>z::int. x = of_int z \<and> a \<le> z \<and> of_int z \<le> hi"
  then obtain z :: int where z: "x = of_int z" "a \<le> z" "of_int z \<le> hi" by blast
  then have "x = of_int a + real (nat (z - a))" "of_int a + real (nat (z - a)) \<le> hi"
    by simp_all
  then show "x \<in> set (steps (of_int a) hi)"
    unfolding set_steps by blast
qed

lemma Circle_Draw_outline_log:
  assumes "w c = h c" and "Thickness (style c) \<noteq> 0"
  shows "drawBuf (Circle_Draw logPixel c tr out) =
     tr @ concat (map (\<lambda>i. map (\<lambda>j. (go_round j, go_round i, NewPixel (Colour (style c))))
        (filter (\<lambda>j. w c / 2 - Thickness (style c) \<le> Dist (Pos c) \<lparr>X = i, Y = j\<rparr>
                      \<and> Dist (Pos c) \<lparr>X = i, Y = j\<rparr> \<le> w c / 2)
           (steps (Y (Pos c) - w c / 2) (Y (Pos c) - w c / 2 + h c))))
        (steps (X (Pos c) - w c / 2) (X (Pos c) - w c / 2 + w c)))"
  using assms
  by (simp add: Circle_Draw_def Let_def NewRect_def newShape_def defaultShape_def
      fold_fold_logPixel)

lemma Circle_Draw_outline_set:
  assumes "w c = h c" and "Thickness (style c) \<noteq> 0"
  shows "set (drawBuf (Circle_Draw logPixel c [] out)) =
     {(go_round j, go_round i, NewPixel (Colour (style c))) | i j.
        i \<in> set (steps (X (Pos c) - w c / 2) (X (Pos c) + w c / 2))
        \<and> j \<in> set (steps (Y (Pos c) - w c / 2) (Y (Pos c) + w c / 2))
        \<and> w c / 2 - Thickness (style c) \<le> Dist (Pos c) \<lparr>X = i, Y = j\<rparr>
        \<and> Dist (Pos c) \<lparr>X = i, Y = j\<rparr> \<le> w c / 2}"
proof -
  have hi: "X (Pos c) - w c / 2 + w c = X (Pos c) + w c / 2"
    "Y (Pos c) - w c / 2 + h c = Y (Pos c) + w c / 2"
    using assms(1) by (simp_all add: field_simps)
  show ?thesis
    unfolding Circle_Draw_outline_log [OF assms] hi by auto
qed

lemma abs_diff_le_Dist:
  "\<bar>X v1 - X v2\<bar> \<le> Dist v1 v2" "\<bar>Y v1 - Y v2\<bar> \<le> Dist v1 v2"
proof -
  have "sqrt ((X v1 - X v2) ^ 2) \<le> Dist v1 v2" "sqrt ((Y v1 - Y v2) ^ 2) \<le> Dist v1 v2"
    unfolding Dist_def Let_def by (rule real_sqrt_le_mono, simp)+
  then show "\<bar>X v1 - X v2\<bar> \<le> Dist v1 v2" "\<bar>Y v1 - Y v2\<bar> \<le> Dist v1 v2"
    by simp_all
qed

lemma offGridCircle_fields:
  "w offGridCircle = 2" "h offGridCircle = 2" "Pos offGridCircle = \<lparr>X = 21 / 2, Y = 10\<rparr>"
  "style offGridCircle = \<lparr>Colour = RGBA 255 0 0 255, Thickness = 1 / 2\<rparr>"
  by (simp_all add: offGridCircle_def NewCircle_def newShape_def defaultShape_def WithStyle_def)

lemma gridCircle_fields:
  "w gridCircle = 4" "h gridCircle = 4" "Pos gridCircle = \<lparr>X = 10, Y = 10\<rparr>"
  "style gridCircle = \<lparr>Colour = RGBA 255 0 0 255, Thickness = 1\<rparr>"
  by (simp_all add: gridCircle_def NewCircle_def newShape_def defaultShape_def WithStyle_def)

lemma upto_0_2: "[0..(2::int)] = [0, 1, 2]"
  by (simp add: upto.simps)

lemma SetPixel_inside:
  "0 \<le> row \<Longrightarrow> row < fbHeight buf \<Longrightarrow> 0 \<le> col \<Longrightarrow> col < fbWidth buf \<Longrightarrow>
   SetPixel row col p buf = buf\<lparr>pixels := (pixels buf)((row, col) := p)\<rparr>"
  by (simp add: SetPixel_def)

text \<open>
  C3. Drawing a rectangle at \<open>(0, 0)\<close> of width 2, height 2 and thickness 0 calls
  \<^verbatim>\<open>SetPixel\<close> exactly nine times, once for each row 0..2 and column 0..2, column by
  column. On a frame buffer of at least 3 by 3 pixels these nine pixels take the
  rectangle's colour and every other pixel keeps its value. \<open>NewRect 2 2 (0, 0)\<close> is such
  a rectangle, white, whatever options it is given.
\<close>

theorem Rect_Draw_2x2_sets_3x3_block:
  "Rect_Draw logPixel
     \<lparr>Pos = \<lparr>X = 0, Y = 0\<rparr>, Direction = d, w = 2, h = 2,
      style = \<lparr>Colour = c, Thickness = 0\<rparr>\<rparr> []
   = [(0, 0, NewPixel c), (1, 0, NewPixel c), (2, 0, NewPixel c),
      (0, 1, NewPixel c), (1, 1, NewPixel c), (2, 1, NewPixel c),
      (0, 2, NewPixel c), (1, 2, NewPixel c), (2, 2, NewPixel c)]
   \<and> (3 \<le> fbWidth buf \<and> 3 \<le> fbHeight buf \<longrightarrow>
        Rect_Draw SetPixel
          \<lparr>Pos = \<lparr>X = 0, Y = 0\<rparr>, Direction = d, w = 2, h = 2,
           style = \<lparr>Colour = c, Thickness = 0\<rparr>\<rparr> buf
        = buf\<lparr>pixels := (\<lambda>(row, col).
                  if 0 \<le> row \<and> row \<le> 2 \<and> 0 \<le> col \<and> col \<le> 2 then NewPixel c
                  else pixels buf (row, col))\<rparr>)
   \<and> NewRect 2 2 \<lparr>X = 0, Y = 0\<rparr> opts
       = \<lparr>Pos = \<lparr>X = 0, Y = 0\<rparr>, Direction = Normalise \<lparr>X = 0, Y = - 1\<rparr>, w = 2, h = 2,
          style = \<lparr>Colour = RGBA 255 255 255 255, Thickness = 0\<rparr>\<rparr>"
proof (intro conjI impI)
  show "Rect_Draw logPixel
     \<lparr>Pos = \<lparr>X = 0, Y = 0\<rparr>, Direction = d, w = 2, h = 2,
      style = \<lparr>Colour = c, Thickness = 0\<rparr>\<rparr> []
   = [(0, 0, NewPixel c), (1, 0, NewPixel c), (2, 0, NewPixel c),
      (0, 1, NewPixel c), (1, 1, NewPixel c), (2, 1, NewPixel c),
      (0, 2, NewPixel c), (1, 2, NewPixel c), (2, 2, NewPixel c)]"
    by (simp add: Rect_Draw.simps upto_0_2 logPixel_def)
next
  assume big: "3 \<le> fbWidth buf \<and> 3 \<le> fbHeight buf"
  have "Rect_Draw SetPixel
          \<lparr>Pos = \<lparr>X = 0, Y = 0\<rparr>, Direction = d, w = 2, h = 2,
           style = \<lparr>Colour = c, Thickness = 0\<rparr>\<rparr> buf
        = buf\<lparr>pixels := (pixels buf)
             ((0, 0) := NewPixel c, (1, 0) := NewPixel c, (2, 0) := NewPixel c,
              (0, 1) := NewPixel c, (1, 1) := NewPixel c, (2, 1) := NewPixel c,
              (0, 2) := NewPixel c, (1, 2) := NewPixel c, (2, 2) := NewPixel c)\<rparr>"
    using big by (simp add: Rect_Draw.simps upto_0_2 SetPixel_inside)
  moreover have "(pixels buf)
             ((0, 0) := NewPixel c, (1, 0) := NewPixel c, (2, 0) := NewPixel c,
              (0, 1) := NewPixel c, (1, 1) := NewPixel c, (2, 1) := NewPixel c,
              (0, 2) := NewPixel c, (1, 2) := NewPixel c, (2, 2) := NewPixel c)
        = (\<lambda>(row, col).
                  if 0 \<le> row \<and> row \<le> 2 \<and> 0 \<le> col \<and> col \<le> 2 then NewPixel c
                  else pixels buf (row, col))"
  proof (rule ext)
    fix rc :: "int \<times> int"
    obtain row col where rc: "rc = (row, col)" by (cases rc)
    have "(0 \<le> row \<and> row \<le> 2) = (row = 0 \<or> row = 1 \<or> row = 2)"
      "(0 \<le> col \<and> col \<le> 2) = (col = 0 \<or> col = 1 \<or> col = 2)"
      by auto
    then show "((pixels buf)
             ((0, 0) := NewPixel c, (1, 0) := NewPixel c, (2, 0) := NewPixel c,
              (0, 1) := NewPixel c, (1, 1) := NewPixel c, (2, 1) := NewPixel c,
              (0, 2) := NewPixel c, (1, 2) := NewPixel c, (2, 2) := NewPixel c)) rc
        = (case rc of (row, col) \<Rightarrow>
                  if 0 \<le> row \<and> row \<le> 2 \<and> 0 \<le> col \<and> col \<le> 2 then NewPixel c
                  else pixels buf (row, col))"
      unfolding rc by auto
  qed
  ultimately show "Rect_Draw SetPixel
          \<lparr>Pos = \<lparr>X = 0, Y = 0\<rparr>, Direction = d, w = 2, h = 2,
           style = \<lparr>Colour = c, Thickness = 0\<rparr>\<rparr> buf
        = buf\<lparr>pixels := (\<lambda>(row, col).
                  if 0 \<le> row \<and> row \<le> 2 \<and> 0 \<le> col \<and> col \<le> 2 then NewPixel c
                  else pixels buf (row, col))\<rparr>"
    by simp
next
  show "NewRect 2 2 \<lparr>X = 0, Y = 0\<rparr> opts
       = \<lparr>Pos = \<lparr>X = 0, Y = 0\<rparr>, Direction = Normalise \<lparr>X = 0, Y = - 1\<rparr>, w = 2, h = 2,
          style = \<lparr>Colour = RGBA 255 255 255 255, Thickness = 0\<rparr>\<rparr>"
    by (simp add: NewRect_def newShape_def defaultShape_def)
qed

theorem Rect_Draw_2x2_sets_3x3_block_witness:
  "3 \<le> fbWidth blackBuffer \<and> 3 \<le> fbHeight blackBuffer
   \<and> pixels (Rect_Draw SetPixel (NewRect 2 2 \<lparr>X = 0, Y = 0\<rparr> []) blackBuffer) (2, 2)
       = RGBA 255 255 255 255
   \<and> pixels (Rect_Draw SetPixel (NewRect 2 2 \<lparr>X = 0, Y = 0\<rparr> []) blackBuffer) (3, 2)
       = RGBA 0 0 0 255
   \<and> pixels (Rect_Draw SetPixel (NewRect 2 2 \<lparr>X = 0, Y = 0\<rparr> []) blackBuffer) (2, 3)
       = RGBA 0 0 0 255"
proof -
  have big: "3 \<le> fbWidth blackBuffer \<and> 3 \<le> fbHeight blackBuffer"
    by (simp add: blackBuffer_def)
  note block = Rect_Draw_2x2_sets_3x3_block
    [of "Normalise \<lparr>X = 0, Y = - 1\<rparr>" "RGBA 255 255 255 255" blackBuffer "[]"]
  have "Rect_Draw SetPixel (NewRect 2 2 \<lparr>X = 0, Y = 0\<rparr> []) blackBuffer
        = blackBuffer\<lparr>pixels := (\<lambda>(row, col).
                  if 0 \<le> row \<and> row \<le> 2 \<and> 0 \<le> col \<and> col \<le> 2
                  then NewPixel (RGBA 255 255 255 255)
                  else pixels blackBuffer (row, col))\<rparr>"
    using block big by simp
  then show ?thesis
    using big by (simp add: NewPixel_def blackBuffer_def)
qed

text \<open>
  C4, as stated: with an outline thickness \<open>t > 0\<close>, a pixel of the bounding square is set
  if and only if its distance from the centre lies in \<open>[radius - t, radius]\<close>. It fails
  for the circle of diameter 2 and thickness \<open>1/2\<close> centred at \<open>(10.5, 10)\<close>: the loops
  visit the columns \<open>9.5, 10.5, 11.5\<close>, measure the distance there, and write the rounded
  columns \<open>10, 11, 12\<close>. The pixel at row 10, column 11 lies in the bounding square at
  distance \<open>1/2\<close>, inside the band, and is not set (the position \<open>(10.5, 10)\<close> measured
  for it is the centre). The pixel at row 10, column 12 is at distance \<open>3/2\<close>, beyond the
  radius 1, and is set.
\<close>

theorem Circle_Draw_outline_counterexample:
  "w offGridCircle = 2 \<and> h offGridCircle = 2
   \<and> Pos offGridCircle = \<lparr>X = 21 / 2, Y = 10\<rparr>
   \<and> Thickness (style offGridCircle) = 1 / 2
   \<and> Dist (Pos offGridCircle) \<lparr>X = 11, Y = 10\<rparr> = 1 / 2
   \<and> w offGridCircle / 2 - Thickness (style offGridCircle)
        \<le> Dist (Pos offGridCircle) \<lparr>X = 11, Y = 10\<rparr>
   \<and> Dist (Pos offGridCircle) \<lparr>X = 11, Y = 10\<rparr> \<le> w offGridCircle / 2
   \<and> (10, 11, NewPixel (Colour (style offGridCircle)))
        \<notin> set (drawBuf (Circle_Draw logPixel offGridCircle [] []))
   \<and> Dist (Pos offGridCircle) \<lparr>X = 12, Y = 10\<rparr> = 3 / 2
   \<and> (10, 12, NewPixel (Colour (style offGridCircle)))
        \<in> set (drawBuf (Circle_Draw logPixel offGridCircle [] []))"
proof -
  have sx: "steps (X (Pos offGridCircle) - w offGridCircle / 2)
              (X (Pos offGridCircle) + w offGridCircle / 2) = [19 / 2, 21 / 2, 23 / 2]"
    by (simp add: offGridCircle_fields steps.simps)
  have sy: "steps (Y (Pos offGridCircle) - w offGridCircle / 2)
              (Y (Pos offGridCircle) + w offGridCircle / 2) = [9, 10, 11]"
    by (simp add: offGridCircle_fields steps.simps)
  have r: "go_round (19 / 2) = 10" "go_round (21 / 2) = 11" "go_round (23 / 2) = 12"
    by (simp_all add: go_round_def)
  have "sqrt (1 / 4) = sqrt ((1 / 2) ^ 2)" "sqrt (9 / 4) = sqrt ((3 / 2) ^ 2)"
    by (simp_all add: power2_eq_square)
  then have q: "sqrt (1 / 4) = 1 / 2" "sqrt (9 / 4) = 3 / 2"
    by (simp_all del: real_sqrt_eq_iff)
  have d: "Dist (Pos offGridCircle) \<lparr>X = 11, Y = 10\<rparr> = 1 / 2"
    "Dist (Pos offGridCircle) \<lparr>X = 12, Y = 10\<rparr> = 3 / 2"
    by (simp_all add: Dist_def offGridCircle_fields power2_eq_square q)
  have centre: "Dist (Pos offGridCircle) \<lparr>X = 21 / 2, Y = 10\<rparr> = 0"
    "Dist (Pos offGridCircle) \<lparr>X = 23 / 2, Y = 10\<rparr> = 1"
    by (simp_all add: Dist_def offGridCircle_fields)
  have hyp: "w offGridCircle = h offGridCircle" "Thickness (style offGridCircle) \<noteq> 0"
    by (simp_all add: offGridCircle_fields)
  note log = Circle_Draw_outline_set [OF hyp, of "[]", unfolded sx sy]
  have unset: "(10, 11, NewPixel (Colour (style offGridCircle)))
        \<notin> set (drawBuf (Circle_Draw logPixel offGridCircle [] []))"
  proof
    assume "(10, 11, NewPixel (Colour (style offGridCircle)))
        \<in> set (drawBuf (Circle_Draw logPixel offGridCircle [] []))"
    then obtain i j where ij: "go_round j = 10" "go_round i = 11"
      "i \<in> set [19 / 2, 21 / 2, 23 / 2]" "j \<in> set [9, 10, 11]"
      "w offGridCircle / 2 - Thickness (style offGridCircle)
         \<le> Dist (Pos offGridCircle) \<lparr>X = i, Y = j\<rparr>"
      unfolding log by auto
    from ij(3) have "i = 19 / 2 \<or> i = 21 / 2 \<or> i = 23 / 2"
      by simp
    moreover have "i \<noteq> 19 / 2"
    proof
      assume "i = 19 / 2"
      then have "go_round i = 10" by (simp only: r)
      with ij(2) show False by simp
    qed
    moreover have "i \<noteq> 23 / 2"
    proof
      assume "i = 23 / 2"
      then have "go_round i = 12" by (simp only: r)
      with ij(2) show False by simp
    qed
    ultimately have i: "i = 21 / 2"
      by blast
    from ij(4) have "j = 9 \<or> j = 10 \<or> j = 11"
      by simp
    moreover have "j \<noteq> 9" "j \<noteq> 11"
      using ij(1) by auto
    ultimately have j: "j = 10"
      by blast
    from ij(5) show False
      unfolding i j centre(1) by (simp add: offGridCircle_fields)
  qed
  have "(go_round 10, go_round (23 / 2), NewPixel (Colour (style offGridCircle)))
        \<in> set (drawBuf (Circle_Draw logPixel offGridCircle [] []))"
    unfolding log
    by (rule CollectI, rule exI [of _ "23 / 2"], rule exI [of _ 10])
       (simp add: centre [unfolded offGridCircle_fields] offGridCircle_fields)
  then have set: "(10, 12, NewPixel (Colour (style offGridCircle)))
        \<in> set (drawBuf (Circle_Draw logPixel offGridCircle [] []))"
    by (simp add: r)
  show ?thesis
    using d unset set by (simp add: offGridCircle_fields)
qed

text \<open>
  C4, amended: with width equal to height and an outline thickness \<open>t > 0\<close>, the pixels
  set are exactly the rounded positions \<open>(round j, round i)\<close> of the positions \<open>(i, j)\<close>
  the loops visit (from centre minus radius, in steps of 1, up to centre plus radius on
  each axis) whose distance from the centre lies in \<open>[radius - t, radius]\<close>. When centre
  minus radius is an integer on both axes, the positions visited are the integer pixels
  of the bounding square, and a pixel is set if and only if its own distance from the
  centre lies in \<open>[radius - t, radius]\<close>.
\<close>

theorem Circle_Draw_outline_band:
  assumes "w c = h c" and "0 < Thickness (style c)"
  shows "set (drawBuf (Circle_Draw logPixel c [] out)) =
           {(go_round j, go_round i, NewPixel (Colour (style c))) | i j.
              i \<in> set (steps (X (Pos c) - w c / 2) (X (Pos c) + w c / 2))
              \<and> j \<in> set (steps (Y (Pos c) - w c / 2) (Y (Pos c) + w c / 2))
              \<and> w c / 2 - Thickness (style c) \<le> Dist (Pos c) \<lparr>X = i, Y = j\<rparr>
              \<and> Dist (Pos c) \<lparr>X = i, Y = j\<rparr> \<le> w c / 2}
       \<and> (X (Pos c) - w c / 2 = of_int a \<and> Y (Pos c) - w c / 2 = of_int b \<longrightarrow>
            (\<forall>row col.
               ((row, col, NewPixel (Colour (style c)))
                  \<in> set (drawBuf (Circle_Draw logPixel c [] out)))
               = (w c / 2 - Thickness (style c)
                    \<le> Dist (Pos c) \<lparr>X = of_int col, Y = of_int row\<rparr>
                  \<and> Dist (Pos c) \<lparr>X = of_int col, Y = of_int row\<rparr> \<le> w c / 2)))"
proof (intro conjI impI allI)
  have t: "Thickness (style c) \<noteq> 0"
    using assms(2) by simp
  note log = Circle_Draw_outline_set [OF assms(1) t, of out]
  show "set (drawBuf (Circle_Draw logPixel c [] out)) =
           {(go_round j, go_round i, NewPixel (Colour (style c))) | i j.
              i \<in> set (steps (X (Pos c) - w c / 2) (X (Pos c) + w c / 2))
              \<and> j \<in> set (steps (Y (Pos c) - w c / 2) (Y (Pos c) + w c / 2))
              \<and> w c / 2 - Thickness (style c) \<le> Dist (Pos c) \<lparr>X = i, Y = j\<rparr>
              \<and> Dist (Pos c) \<lparr>X = i, Y = j\<rparr> \<le> w c / 2}"
    by (rule log)
  fix row col :: int
  assume grid: "X (Pos c) - w c / 2 = of_int a \<and> Y (Pos c) - w c / 2 = of_int b"
  let ?band = "\<lambda>i j. w c / 2 - Thickness (style c) \<le> Dist (Pos c) \<lparr>X = i, Y = j\<rparr>
                     \<and> Dist (Pos c) \<lparr>X = i, Y = j\<rparr> \<le> w c / 2"
  show "((row, col, NewPixel (Colour (style c)))
           \<in> set (drawBuf (Circle_Draw logPixel c [] out)))
        = ?band (of_int col) (of_int row)"
  proof
    assume "(row, col, NewPixel (Colour (style c)))
           \<in> set (drawBuf (Circle_Draw logPixel c [] out))"
    then obtain i j where ij: "row = go_round j" "col = go_round i"
      "i \<in> set (steps (of_int a) (X (Pos c) + w c / 2))"
      "j \<in> set (steps (of_int b) (Y (Pos c) + w c / 2))" "?band i j"
      unfolding log using grid by auto
    from ij(3) obtain zi :: int where zi: "i = of_int zi"
      unfolding set_steps_of_int by blast
    from ij(4) obtain zj :: int where zj: "j = of_int zj"
      unfolding set_steps_of_int by blast
    from ij(1,2) zi zj have "i = of_int col" "j = of_int row"
      by simp_all
    with ij(5) show "?band (of_int col) (of_int row)"
      by simp
  next
    assume band: "?band (of_int col) (of_int row)"
    have "\<bar>X (Pos c) - of_int col\<bar> \<le> w c / 2" "\<bar>Y (Pos c) - of_int row\<bar> \<le> w c / 2"
      using band abs_diff_le_Dist [of "Pos c" "\<lparr>X = of_int col, Y = of_int row\<rparr>"]
      by simp_all
    then have "(of_int a :: real) \<le> of_int col" "of_int col \<le> X (Pos c) + w c / 2"
      "(of_int b :: real) \<le> of_int row" "of_int row \<le> Y (Pos c) + w c / 2"
      using grid by linarith+
    then have "of_int col \<in> set (steps (of_int a) (X (Pos c) + w c / 2))"
      "of_int row \<in> set (steps (of_int b) (Y (Pos c) + w c / 2))"
      unfolding set_steps_of_int by auto
    then have "of_int col \<in> set (steps (X (Pos c) - w c / 2) (X (Pos c) + w c / 2))"
      "of_int row \<in> set (steps (Y (Pos c) - w c / 2) (Y (Pos c) + w c / 2))"
      using grid by simp_all
    moreover have "row = go_round (of_int row)" "col = go_round (of_int col)"
      by simp_all
    ultimately show "(row, col, NewPixel (Colour (style c)))
           \<in> set (drawBuf (Circle_Draw logPixel c [] out))"
      unfolding log using band by blast
  qed
qed

theorem Circle_Draw_outline_band_witness:
  "w gridCircle = h gridCircle \<and> 0 < Thickness (style gridCircle)
   \<and> X (Pos gridCircle) - w gridCircle / 2 = of_int 8
   \<and> Y (Pos gridCircle) - w gridCircle / 2 = of_int 8
   \<and> Dist (Pos gridCircle) \<lparr>X = 12, Y = 10\<rparr> = 2
   \<and> (10, 12, RGBA 255 0 0 255) \<in> set (drawBuf (Circle_Draw logPixel gridCircle [] []))
   \<and> Dist (Pos gridCircle) \<lparr>X = 10, Y = 10\<rparr> = 0
   \<and> (10, 10, RGBA 255 0 0 255) \<notin> set (drawBuf (Circle_Draw logPixel gridCircle [] []))"
proof -
  have hyp: "w gridCircle = h gridCircle" "0 < Thickness (style gridCircle)"
    by (simp_all add: gridCircle_fields)
  have grid: "X (Pos gridCircle) - w gridCircle / 2 = of_int 8
      \<and> Y (Pos gridCircle) - w gridCircle / 2 = of_int 8"
    by (simp add: gridCircle_fields)
  have d: "Dist (Pos gridCircle) \<lparr>X = 12, Y = 10\<rparr> = 2"
    "Dist (Pos gridCircle) \<lparr>X = 10, Y = 10\<rparr> = 0"
    by (simp_all add: Dist_def gridCircle_fields)
  note iff = Circle_Draw_outline_band [OF hyp, of "[]" 8 8, THEN conjunct2, rule_format, OF grid]
  have "(10, 12, RGBA 255 0 0 255) \<in> set (drawBuf (Circle_Draw logPixel gridCircle [] []))"
    using iff [of 10 12] d(1) by (simp add: gridCircle_fields NewPixel_def)
  moreover
  have "(10, 10, RGBA 255 0 0 255) \<notin> set (drawBuf (Circle_Draw logPixel gridCircle [] []))"
    using iff [of 10 10] d(2) by (simp add: gridCircle_fields NewPixel_def)
  ultimately show ?thesis
    using hyp grid d by simp
qed

text \<open>
  C5, as stated: for a circle whose width differs from its height, constructing it as
  well as drawing it takes the fatal-error path. It fails for the construction:
  \<^verbatim>\<open>NewCircle\<close> takes one diameter, checks nothing and cannot panic, and it applies its
  options after setting width and height, so it returns a circle of width 2 and height 3
  when given an option that changes the height.
\<close>

theorem NewCircle_unequal_counterexample:
  "w (NewCircle 2 \<lparr>X = 0, Y = 0\<rparr> [stretch]) = 2
   \<and> h (NewCircle 2 \<lparr>X = 0, Y = 0\<rparr> [stretch]) = 3
   \<and> w (NewCircle 2 \<lparr>X = 0, Y = 0\<rparr> [stretch]) \<noteq> h (NewCircle 2 \<lparr>X = 0, Y = 0\<rparr> [stretch])"
  by (simp add: NewCircle_def newShape_def defaultShape_def stretch_def)

text \<open>
  C5, amended: \<^verbatim>\<open>Circle.Draw\<close> on a circle whose width differs from its height prints
  the two values, panics with \<open>circle width and height must match\<close> and has written no
  pixel, whatever the write primitive; with equal width and height it returns and prints
  nothing. \<^verbatim>\<open>NewCircle\<close> has no fatal-error path: it sets both width and height to
  the one diameter it is given, and they stay equal under no option or a style option.
\<close>

theorem Circle_Draw_unequal_panics:
  "(w c \<noteq> h c \<longrightarrow>
      Circle_Draw setPixel c buf out =
        \<lparr>drawOutcome = Panicked ''circle width and height must match'',
         drawBuf = buf,
         drawOut = out @ [[S ''w:'', F (w c), S ''h:'', F (h c)]]\<rparr>)
   \<and> (w c = h c \<longrightarrow> drawOutcome (Circle_Draw setPixel c buf out) = Returned
                      \<and> drawOut (Circle_Draw setPixel c buf out) = out)
   \<and> w (NewCircle diameter pos []) = diameter
   \<and> h (NewCircle diameter pos []) = diameter
   \<and> w (NewCircle diameter pos [WithStyle st]) = diameter
   \<and> h (NewCircle diameter pos [WithStyle st]) = diameter"
  by (simp add: Circle_Draw_def Let_def NewCircle_def newShape_def defaultShape_def
      WithStyle_def)

theorem Circle_Draw_unequal_panics_witness:
  "w (NewCircle 2 \<lparr>X = 0, Y = 0\<rparr> [stretch]) \<noteq> h (NewCircle 2 \<lparr>X = 0, Y = 0\<rparr> [stretch])
   \<and> w gridCircle = h gridCircle
   \<and> Circle_Draw logPixel (NewCircle 2 \<lparr>X = 0, Y = 0\<rparr> [stretch]) [] [] =
        \<lparr>drawOutcome = Panicked ''circle width and height must match'',
         drawBuf = [],
         drawOut = [[S ''w:'', F 2, S ''h:'', F 3]]\<rparr>
   \<and> drawOutcome (Circle_Draw logPixel gridCircle [] []) = Returned"
proof -
  have f: "w (NewCircle 2 \<lparr>X = 0, Y = 0\<rparr> [stretch]) = 2"
    "h (NewCircle 2 \<lparr>X = 0, Y = 0\<rparr> [stretch]) = 3"
    by (simp_all add: NewCircle_def newShape_def defaultShape_def stretch_def)
  have eq: "w gridCircle = h gridCircle"
    by (simp add: gridCircle_fields)
  show ?thesis
    using f eq
      Circle_Draw_unequal_panics [of "NewCircle 2 \<lparr>X = 0, Y = 0\<rparr> [stretch]" logPixel "[]" "[]"]
      Circle_Draw_unequal_panics [of gridCircle logPixel "[]" "[]"]
    by simp
qed

section \<open>Properties of Button.Update\<close>

lemmas behaviour_defs =
  OnAll_def OnPress_def OnRelease_def OnPressAndRelease_def OnHold_def OnHover_def

lemma storeHistory_simps:
  "outcome (storeHistory b (oc, wd, cs)) = oc"
  "calls (storeHistory b (oc, wd, cs)) = cs"
  "world (storeHistory b (oc, wd, cs)) = wd"
  "button (storeHistory b (oc, wd, cs)) =
     (if oc = Returned
      then b\<lparr>prevMouseState := MouseButtonState (win wd), prevMouseLoc := MouseLocation (win wd)\<rparr>
      else b)"
  by (simp_all add: storeHistory_def)

lemma callCB_simp: "callCB b s wd = (fst (CB b s wd), snd (CB b s wd), [s])"
  by (simp add: callCB_def split_def)

lemma Update_OnAll:
  "Behaviour b = OnAll \<Longrightarrow>
   Update b wd = storeHistory b (callCB b (MouseButtonState (win wd)) wd)"
  by (simp add: Update_def Let_def)

lemma Update_OnHover:
  "Behaviour b = OnHover \<Longrightarrow>
   Update b wd = storeHistory b
     (if IsWithin (Shape b) (MouseLocation (win wd))
      then callCB b (MouseButtonState (win wd)) wd else noCall wd)"
  by (simp add: Update_def behaviour_defs Let_def)

lemma Update_OnPress:
  "Behaviour b = OnPress \<Longrightarrow>
   Update b wd = storeHistory b
     (if IsWithin (Shape b) (MouseLocation (win wd))
         \<and> prevMouseState b = NoClick \<and> MouseButtonState (win wd) = Trigger b
      then callCB b (MouseButtonState (win wd)) wd else noCall wd)"
  by (simp add: Update_def behaviour_defs Let_def)

lemma Update_OnRelease:
  "Behaviour b = OnRelease \<Longrightarrow>
   Update b wd = storeHistory b
     (if IsWithin (Shape b) (MouseLocation (win wd))
         \<and> prevMouseState b = Trigger b \<and> MouseButtonState (win wd) = NoClick
      then callCB b (MouseButtonState (win wd)) wd else noCall wd)"
  by (simp add: Update_def behaviour_defs Let_def)

lemma Update_OnPressAndRelease:
  "Behaviour b = OnPressAndRelease \<Longrightarrow>
   Update b wd = storeHistory b
     (if IsWithin (Shape b) (MouseLocation (win wd))
         \<and> prevMouseState b \<noteq> MouseButtonState (win wd)
      then callCB b (MouseButtonState (win wd)) wd else noCall wd)"
  by (simp add: Update_def behaviour_defs Let_def)

lemma Update_OnHold:
  "Behaviour b = OnHold \<Longrightarrow>
   Update b wd = storeHistory b
     (if IsWithin (Shape b) (MouseLocation (win wd))
         \<and> MouseButtonState (win wd) = Trigger b
      then callCB b (MouseButtonState (win wd)) wd else noCall wd)"
  by (simp add: Update_def behaviour_defs Let_def)

lemma Update_unsupported:
  "Behaviour b \<notin> {OnAll, OnPress, OnRelease, OnPressAndRelease, OnHold, OnHover} \<Longrightarrow>
   Update b wd =
     \<lparr>outcome = Panicked ''unsupported button behaviour'', button = b, world = wd, calls = []\<rparr>"
  by (simp add: Update_def Let_def)

lemma Update_recognised:
  assumes "Behaviour b \<in> {OnAll, OnPress, OnRelease, OnPressAndRelease, OnHold, OnHover}"
  shows "\<exists>c. Update b wd =
           storeHistory b (if c then callCB b (MouseButtonState (win wd)) wd else noCall wd)"
proof -
  consider "Behaviour b = OnAll" | "Behaviour b = OnHover" | "Behaviour b = OnPress"
    | "Behaviour b = OnRelease" | "Behaviour b = OnPressAndRelease" | "Behaviour b = OnHold"
    using assms by auto
  then show ?thesis
  proof cases
    case 1
    then have "Update b wd =
        storeHistory b (if True then callCB b (MouseButtonState (win wd)) wd else noCall wd)"
      by (simp add: Update_OnAll)
    then show ?thesis by (rule exI)
  next
    case 2
    then show ?thesis by (subst Update_OnHover) (simp, rule exI, rule refl)
  next
    case 3
    then show ?thesis by (subst Update_OnPress) (simp, rule exI, rule refl)
  next
    case 4
    then show ?thesis by (subst Update_OnRelease) (simp, rule exI, rule refl)
  next
    case 5
    then show ?thesis by (subst Update_OnPressAndRelease) (simp, rule exI, rule refl)
  next
    case 6
    then show ?thesis by (subst Update_OnHold) (simp, rule exI, rule refl)
  qed
qed

text \<open>Whatever the mode, \<open>Update\<close> changes at most the two history fields of the button.\<close>

lemma Update_button:
  "button (Update b wd) =
     (if outcome (Update b wd) = Returned
      then b\<lparr>prevMouseState := MouseButtonState (win (world (Update b wd))),
             prevMouseLoc := MouseLocation (win (world (Update b wd)))\<rparr>
      else b)"
proof (cases "Behaviour b \<in> {OnAll, OnPress, OnRelease, OnPressAndRelease, OnHold, OnHover}")
  case True
  from Update_recognised [OF True] obtain c where
    "Update b wd =
       storeHistory b (if c then callCB b (MouseButtonState (win wd)) wd else noCall wd)"
    by blast
  then show ?thesis
    by (cases c) (simp_all add: storeHistory_simps callCB_simp noCall_def)
next
  case False
  then show ?thesis
    by (simp add: Update_unsupported)
qed

lemma Update_keeps_config:
  "Behaviour (button (Update b wd)) = Behaviour b" "Trigger (button (Update b wd)) = Trigger b"
  "Shape (button (Update b wd)) = Shape b" "CB (button (Update b wd)) = CB b"
  by (simp_all add: Update_button)

lemma OnPress_calls:
  assumes "Behaviour b = OnPress"
  shows "calls (Update b wd) =
     (if IsWithin (Shape b) (MouseLocation (win wd))
         \<and> prevMouseState b = NoClick \<and> MouseButtonState (win wd) = Trigger b
      then [MouseButtonState (win wd)] else [])"
  using assms by (simp add: Update_OnPress storeHistory_simps callCB_simp noCall_def)

text \<open>
  C1, as stated: with behaviour \<open>OnPress\<close> and trigger \<open>LeftClick\<close>, \<open>Update\<close> fires
  if and only if the cursor is within the shape, the stored previous state is \<open>NoClick\<close>
  and the current state is \<open>LeftClick\<close>; hence \<open>NoClick\<close> then \<open>LeftClick\<close> fires once,
  a sustained \<open>LeftClick\<close> does not fire again, and \<open>LeftClick\<close> then \<open>NoClick\<close> does not
  fire. The sustained case fails: the state stored is the one the window reports at the
  end of the call. With a callback that changes the window's input, the frames
  \<open>NoClick, LeftClick, LeftClick\<close> at \<open>(5, 5)\<close>, over the button, fire in the second
  frame and again in the third.
\<close>

theorem OnPress_sustained_refire_counterexample:
  "Behaviour (SetCallback pressButton consumeClick) = OnPress
   \<and> Trigger (SetCallback pressButton consumeClick) = LeftClick
   \<and> IsWithin (Shape (SetCallback pressButton consumeClick))
        (MouseLocation (win (frame LeftClick 5 5)))
   \<and> calls (Update (SetCallback pressButton consumeClick) (frame NoClick 5 5)) = []
   \<and> calls (Update
        (button (Update (SetCallback pressButton consumeClick) (frame NoClick 5 5)))
        (frame LeftClick 5 5)) = [LeftClick]
   \<and> calls (Update
        (button (Update
          (button (Update (SetCallback pressButton consumeClick) (frame NoClick 5 5)))
          (frame LeftClick 5 5)))
        (frame LeftClick 5 5)) = [LeftClick]"
proof -
  let ?b0 = "SetCallback pressButton consumeClick"
  let ?b1 = "button (Update ?b0 (frame NoClick 5 5))"
  let ?b2 = "button (Update ?b1 (frame LeftClick 5 5))"
  have cfg: "Behaviour ?b0 = OnPress" "Trigger ?b0 = LeftClick"
    "Shape ?b0 = Shape pressButton" "CB ?b0 = consumeClick"
    unfolding SetCallback_def by (simp_all add: pressButton_def)
  have hov: "IsWithin (Shape pressButton) (MouseLocation (win (frame LeftClick 5 5)))"
    by (simp add: pressButton_def frame_def)
  have fr: "MouseButtonState (win (frame NoClick 5 5)) = NoClick"
    "MouseButtonState (win (frame LeftClick 5 5)) = LeftClick"
    by (simp_all add: frame_def)
  have c0: "calls (Update ?b0 (frame NoClick 5 5)) = []"
    by (simp add: OnPress_calls cfg fr)
  have "outcome (Update ?b0 (frame NoClick 5 5)) = Returned"
    "world (Update ?b0 (frame NoClick 5 5)) = frame NoClick 5 5"
    by (simp_all add: Update_OnPress cfg fr storeHistory_simps noCall_def)
  then have p1: "prevMouseState ?b1 = NoClick"
    by (simp add: Update_button fr)
  have cfg1: "Behaviour ?b1 = OnPress" "Trigger ?b1 = LeftClick"
    "Shape ?b1 = Shape pressButton" "CB ?b1 = consumeClick"
    by (simp_all add: Update_keeps_config cfg)
  have u1: "Update ?b1 (frame LeftClick 5 5)
            = storeHistory ?b1 (callCB ?b1 LeftClick (frame LeftClick 5 5))"
    by (simp add: Update_OnPress cfg1 p1 hov fr)
  have c1: "calls (Update ?b1 (frame LeftClick 5 5)) = [LeftClick]"
    unfolding u1 by (simp add: storeHistory_simps callCB_simp)
  have "outcome (Update ?b1 (frame LeftClick 5 5)) = Returned"
    "MouseButtonState (win (world (Update ?b1 (frame LeftClick 5 5)))) = NoClick"
    unfolding u1 by (simp_all add: storeHistory_simps callCB_simp cfg1 consumeClick_def)
  then have p2: "prevMouseState ?b2 = NoClick"
    by (simp add: Update_button)
  have cfg2: "Behaviour ?b2 = OnPress" "Trigger ?b2 = LeftClick"
    "Shape ?b2 = Shape pressButton"
    by (simp_all add: Update_keeps_config cfg)
  have c2: "calls (Update ?b2 (frame LeftClick 5 5)) = [LeftClick]"
    by (simp add: OnPress_calls cfg2 p2 hov fr)
  have hov0: "IsWithin (Shape ?b0) (MouseLocation (win (frame LeftClick 5 5)))"
    using hov by (simp only: cfg(3))
  show ?thesis
    by (intro conjI cfg(1) cfg(2) hov0 c0 c1 c2)
qed

text \<open>
  C1, amended: with behaviour \<open>OnPress\<close> and trigger \<open>LeftClick\<close>, \<open>Update\<close> calls the
  callback if and only if the cursor is within the shape, the stored previous mouse state
  is \<open>NoClick\<close> and the current mouse state is \<open>LeftClick\<close>; it calls it at most once,
  with \<open>LeftClick\<close>, and the outcome and the world are then the callback's; with no call
  it returns and leaves the world as it was. Over two frames: \<open>NoClick\<close> then
  \<open>LeftClick\<close> while hovering fires exactly once, in the second frame; a frame in state
  \<open>NoClick\<close> never fires, so \<open>LeftClick\<close> then \<open>NoClick\<close> does not fire; and a frame
  that follows a call which returned does not fire when the window reported \<open>LeftClick\<close>
  at the end of that call, as it does after a frame in state \<open>LeftClick\<close> whose callback
  leaves the window's input as it is.
\<close>

theorem OnPress_fires_on_press_transition:
  assumes "Behaviour b = OnPress" and "Trigger b = LeftClick"
  shows "(calls (Update b wd) \<noteq> []) =
           (IsWithin (Shape b) (MouseLocation (win wd))
            \<and> prevMouseState b = NoClick \<and> MouseButtonState (win wd) = LeftClick)
       \<and> (calls (Update b wd) = [] \<or> calls (Update b wd) = [LeftClick])
       \<and> (calls (Update b wd) \<noteq> [] \<longrightarrow>
            (outcome (Update b wd), world (Update b wd)) = CB b LeftClick wd)
       \<and> (calls (Update b wd) = [] \<longrightarrow>
            outcome (Update b wd) = Returned \<and> world (Update b wd) = wd)
       \<and> (MouseButtonState (win wd1) = NoClick
            \<and> MouseButtonState (win wd2) = LeftClick
            \<and> IsWithin (Shape b) (MouseLocation (win wd2))
          \<longrightarrow> calls (Update b wd1) = []
              \<and> calls (Update (button (Update b wd1)) wd2) = [LeftClick])
       \<and> (MouseButtonState (win wd2) = NoClick
          \<longrightarrow> calls (Update (button (Update b wd1)) wd2) = [])
       \<and> (outcome (Update b wd1) = Returned
            \<and> MouseButtonState (win (world (Update b wd1))) = LeftClick
          \<longrightarrow> calls (Update (button (Update b wd1)) wd2) = [])
       \<and> (outcome (Update b wd1) = Returned
            \<and> MouseButtonState (win wd1) = LeftClick
            \<and> (\<forall>s x. win (snd (CB b s x)) = win x)
          \<longrightarrow> calls (Update (button (Update b wd1)) wd2) = [])"
proof (intro conjI impI)
  note next_cfg = Update_keeps_config(1) [of b wd1, unfolded assms(1)]
  have next_trig: "Trigger (button (Update b wd1)) = LeftClick"
    by (simp add: Update_keeps_config assms)
  show "(calls (Update b wd) \<noteq> []) =
          (IsWithin (Shape b) (MouseLocation (win wd))
           \<and> prevMouseState b = NoClick \<and> MouseButtonState (win wd) = LeftClick)"
    using assms by (simp add: OnPress_calls)
  show "calls (Update b wd) = [] \<or> calls (Update b wd) = [LeftClick]"
    using assms by (simp add: OnPress_calls)
  show "(outcome (Update b wd), world (Update b wd)) = CB b LeftClick wd"
    if "calls (Update b wd) \<noteq> []"
  proof -
    have fire: "IsWithin (Shape b) (MouseLocation (win wd))
            \<and> prevMouseState b = NoClick \<and> MouseButtonState (win wd) = Trigger b"
      using that assms by (simp add: OnPress_calls split: if_splits)
    have "Update b wd = storeHistory b (callCB b (MouseButtonState (win wd)) wd)"
      by (simp only: Update_OnPress [OF assms(1)] if_P [OF fire])
    moreover have "MouseButtonState (win wd) = LeftClick"
      using fire assms(2) by simp
    ultimately have "Update b wd = storeHistory b (callCB b LeftClick wd)"
      by simp
    then show ?thesis
      by (simp add: storeHistory_simps callCB_simp)
  qed
  have quiet: "Update b wd = storeHistory b (noCall wd)" if "calls (Update b wd) = []"
  proof -
    have no: "\<not> (IsWithin (Shape b) (MouseLocation (win wd))
            \<and> prevMouseState b = NoClick \<and> MouseButtonState (win wd) = Trigger b)"
      using that assms by (simp add: OnPress_calls split: if_splits)
    show ?thesis
      by (simp only: Update_OnPress [OF assms(1)] if_not_P [OF no])
  qed
  show "outcome (Update b wd) = Returned" if "calls (Update b wd) = []"
    using quiet [OF that] by (simp add: storeHistory_simps noCall_def)
  show "world (Update b wd) = wd" if "calls (Update b wd) = []"
    using quiet [OF that] by (simp add: storeHistory_simps noCall_def)
  show "calls (Update (button (Update b wd1)) wd2) = []"
    if "MouseButtonState (win wd2) = NoClick"
    using that by (simp add: OnPress_calls [OF next_cfg] next_trig)
  show "calls (Update (button (Update b wd1)) wd2) = []"
    if "outcome (Update b wd1) = Returned
        \<and> MouseButtonState (win (world (Update b wd1))) = LeftClick"
  proof -
    have "prevMouseState (button (Update b wd1)) = LeftClick"
      using that by (simp add: Update_button)
    then show ?thesis
      by (simp add: OnPress_calls [OF next_cfg])
  qed
next
  assume fr: "MouseButtonState (win wd1) = NoClick
      \<and> MouseButtonState (win wd2) = LeftClick
      \<and> IsWithin (Shape b) (MouseLocation (win wd2))"
  then have first: "Update b wd1 = storeHistory b (noCall wd1)"
    using assms by (simp add: Update_OnPress)
  then show "calls (Update b wd1) = []"
    by (simp add: storeHistory_simps noCall_def)
  have "prevMouseState (button (Update b wd1)) = NoClick"
    "Shape (button (Update b wd1)) = Shape b"
    "Trigger (button (Update b wd1)) = LeftClick"
    "Behaviour (button (Update b wd1)) = OnPress"
    using fr assms by (simp_all add: first storeHistory_simps noCall_def)
  then show "calls (Update (button (Update b wd1)) wd2) = [LeftClick]"
    using fr by (simp add: OnPress_calls)
next
  assume held: "outcome (Update b wd1) = Returned
      \<and> MouseButtonState (win wd1) = LeftClick
      \<and> (\<forall>s x. win (snd (CB b s x)) = win x)"
  have "win (world (Update b wd1)) = win wd1"
    using assms held
    by (simp add: Update_OnPress storeHistory_simps callCB_simp noCall_def)
  then have "prevMouseState (button (Update b wd1)) = LeftClick"
    using held by (simp add: Update_button)
  moreover have "Behaviour (button (Update b wd1)) = OnPress"
    using assms by (simp add: Update_keeps_config)
  ultimately show "calls (Update (button (Update b wd1)) wd2) = []"
    by (simp add: OnPress_calls)
qed

theorem OnPress_fires_on_press_transition_witness:
  "Behaviour pressButton = OnPress \<and> Trigger pressButton = LeftClick
   \<and> MouseButtonState (win (frame NoClick 5 5)) = NoClick
   \<and> MouseButtonState (win (frame LeftClick 5 5)) = LeftClick
   \<and> IsWithin (Shape pressButton) (MouseLocation (win (frame LeftClick 5 5)))
   \<and> (\<forall>s x. win (snd (CB pressButton s x)) = win x)
   \<and> calls (Update pressButton (frame NoClick 5 5)) = []
   \<and> outcome (Update pressButton (frame NoClick 5 5)) = Returned
   \<and> world (Update pressButton (frame NoClick 5 5)) = frame NoClick 5 5
   \<and> calls (Update (button (Update pressButton (frame NoClick 5 5))) (frame LeftClick 5 5))
       = [LeftClick]
   \<and> (outcome (Update (button (Update pressButton (frame NoClick 5 5))) (frame LeftClick 5 5)),
       world (Update (button (Update pressButton (frame NoClick 5 5))) (frame LeftClick 5 5)))
       = (Returned, (frame LeftClick 5 5)\<lparr>stdout := [[S ''pressed'']]\<rparr>)
   \<and> outcome (Update pressButton (frame LeftClick 5 5)) = Returned
   \<and> MouseButtonState (win (world (Update pressButton (frame LeftClick 5 5)))) = LeftClick
   \<and> calls (Update (button (Update pressButton (frame LeftClick 5 5))) (frame LeftClick 5 5))
       = []
   \<and> calls (Update (button (Update pressButton (frame LeftClick 5 5))) (frame NoClick 5 5))
       = []"
proof -
  let ?n = "frame NoClick 5 5"
  let ?l = "frame LeftClick 5 5"
  let ?b1 = "button (Update pressButton ?n)"
  have hyp: "Behaviour pressButton = OnPress" "Trigger pressButton = LeftClick"
    by (simp_all add: pressButton_def)
  have pres: "\<forall>s x. win (snd (CB pressButton s x)) = win x"
    by (simp add: pressButton_def)
  have fr: "MouseButtonState (win ?n) = NoClick" "MouseButtonState (win ?l) = LeftClick"
    "IsWithin (Shape pressButton) (MouseLocation (win ?l))"
    by (simp_all add: frame_def pressButton_def)
  note first = OnPress_fires_on_press_transition [OF hyp, of ?n ?n ?l]
  have c0: "calls (Update pressButton ?n) = []"
    and c1: "calls (Update ?b1 ?l) = [LeftClick]"
    using first [THEN conjunct2, THEN conjunct2, THEN conjunct2, THEN conjunct2,
        THEN conjunct1] fr
    by simp_all
  have q0: "outcome (Update pressButton ?n) = Returned \<and> world (Update pressButton ?n) = ?n"
    using first [THEN conjunct2, THEN conjunct2, THEN conjunct2, THEN conjunct1] c0
    by simp
  have hyp1: "Behaviour ?b1 = OnPress" "Trigger ?b1 = LeftClick" "CB ?b1 = CB pressButton"
    by (simp_all add: Update_keeps_config hyp)
  have "calls (Update ?b1 ?l) \<noteq> []"
    using c1 by simp
  with OnPress_fires_on_press_transition [OF hyp1(1,2), of ?l ?n ?l,
        THEN conjunct2, THEN conjunct2, THEN conjunct1]
  have "(outcome (Update ?b1 ?l), world (Update ?b1 ?l)) = CB ?b1 LeftClick ?l"
    by simp
  then have f1: "(outcome (Update ?b1 ?l), world (Update ?b1 ?l))
      = (Returned, ?l\<lparr>stdout := [[S ''pressed'']]\<rparr>)"
    by (simp add: hyp1(3)) (simp add: pressButton_def frame_def)
  have ret: "outcome (Update pressButton ?l) = Returned"
    and st: "MouseButtonState (win (world (Update pressButton ?l))) = LeftClick"
    by (simp_all add: Update_OnPress hyp storeHistory_simps noCall_def)
       (simp_all add: pressButton_def frame_def)
  have "calls (Update (button (Update pressButton ?l)) ?l) = []"
    using OnPress_fires_on_press_transition [OF hyp, of ?l ?l ?l,
        THEN conjunct2, THEN conjunct2, THEN conjunct2, THEN conjunct2, THEN conjunct2,
        THEN conjunct2, THEN conjunct2] ret fr(2) pres
    by blast
  have s1': "calls (Update (button (Update pressButton ?l)) ?l) = []"
    using OnPress_fires_on_press_transition [OF hyp, of ?l ?l ?l,
        THEN conjunct2, THEN conjunct2, THEN conjunct2, THEN conjunct2, THEN conjunct2,
        THEN conjunct2, THEN conjunct1] ret st
    by blast
  have s2: "calls (Update (button (Update pressButton ?l)) ?n) = []"
    using OnPress_fires_on_press_transition [OF hyp, of ?l ?l ?n,
        THEN conjunct2, THEN conjunct2, THEN conjunct2, THEN conjunct2, THEN conjunct2,
        THEN conjunct1] fr(1)
    by blast
  show ?thesis
    by (intro conjI hyp pres fr c0 q0 [THEN conjunct1] q0 [THEN conjunct2] c1 f1 ret st s1' s2)
qed




text \<open>
  C7. When the \<open>Behaviour\<close> field is none of the six recognised modes, \<open>Update\<close> panics
  with the message \<open>unsupported button behaviour\<close>; no callback has been called, and the
  button and the world are as they were.
\<close>

theorem Update_unsupported_panics:
  assumes "Behaviour b \<notin> {OnAll, OnPress, OnRelease, OnPressAndRelease, OnHold, OnHover}"
  shows "Update b wd =
     \<lparr>outcome = Panicked ''unsupported button behaviour'', button = b, world = wd, calls = []\<rparr>"
  using assms by (simp add: Update_def Let_def)

theorem Update_unsupported_panics_witness:
  "Behaviour (pressButton\<lparr>Behaviour := 6\<rparr>)
     \<notin> {OnAll, OnPress, OnRelease, OnPressAndRelease, OnHold, OnHover}
   \<and> outcome (Update (pressButton\<lparr>Behaviour := 6\<rparr>) (frame LeftClick 5 5))
       = Panicked ''unsupported button behaviour''
   \<and> calls (Update (pressButton\<lparr>Behaviour := 6\<rparr>) (frame LeftClick 5 5)) = []
   \<and> world (Update (pressButton\<lparr>Behaviour := 6\<rparr>) (frame LeftClick 5 5)) = frame LeftClick 5 5"
proof -
  have hyp: "Behaviour (pressButton\<lparr>Behaviour := 6\<rparr>)
      \<notin> {OnAll, OnPress, OnRelease, OnPressAndRelease, OnHold, OnHover}"
    by (simp add: behaviour_defs)
  show ?thesis
    using hyp Update_unsupported_panics [OF hyp, of "frame LeftClick 5 5"] by simp
qed

text \<open>
  C9. A button made by \<open>NewButton\<close> has behaviour \<open>OnAll\<close> and trigger \<open>LeftClick\<close>.
  Whatever its history fields hold, whatever the shape and the input are, \<open>Update\<close>
  returns having called the callback exactly once, with the current mouse state; the
  callback is the default one, which prints the warning line; and the button that results
  is again the button made by \<open>NewButton\<close>, with new history fields only, so the same holds
  for every later call.
\<close>

theorem NewButton_fires_on_every_Update:
  "Behaviour (NewButton sh fontPath) = OnAll
   \<and> Trigger (NewButton sh fontPath) = LeftClick
   \<and> outcome (Update ((NewButton sh fontPath)\<lparr>prevMouseState := p, prevMouseLoc := l\<rparr>) wd)
       = Returned
   \<and> calls (Update ((NewButton sh fontPath)\<lparr>prevMouseState := p, prevMouseLoc := l\<rparr>) wd)
       = [MouseButtonState (win wd)]
   \<and> world (Update ((NewButton sh fontPath)\<lparr>prevMouseState := p, prevMouseLoc := l\<rparr>) wd)
       = wd\<lparr>stdout := stdout wd @ [[S ''Warning: Button callback not configured'']]\<rparr>
   \<and> button (Update ((NewButton sh fontPath)\<lparr>prevMouseState := p, prevMouseLoc := l\<rparr>) wd)
       = (NewButton sh fontPath)\<lparr>prevMouseState := MouseButtonState (win wd),
                                  prevMouseLoc := MouseLocation (win wd)\<rparr>"
  by (simp add: Update_def NewButton_def storeHistory_def callCB_def)

text \<open>
  C10. \<open>IsHovering\<close> tests the stored cursor location \<open>prevMouseLoc\<close>: the zero vector on
  a button fresh from \<open>NewButton\<close>, and after an \<open>Update\<close> that returned, the location
  that call stored, which is the window's at the end of that call. It takes no window, so
  it does not see where the cursor is now. An \<open>Update\<close> that panicked stores nothing.
\<close>

theorem IsHovering_tests_stored_location:
  "IsHovering b = IsWithin (Shape b) (prevMouseLoc b)
   \<and> IsHovering (NewButton sh fontPath) = IsWithin sh \<lparr>X = 0, Y = 0\<rparr>
   \<and> (outcome (Update b wd) = Returned \<longrightarrow>
        IsHovering (button (Update b wd))
          = IsWithin (Shape b) (MouseLocation (win (world (Update b wd)))))
   \<and> (outcome (Update b wd) \<noteq> Returned \<longrightarrow>
        IsHovering (button (Update b wd)) = IsHovering b)"
  by (simp add: IsHovering_def NewButton_def Update_button)

theorem IsHovering_tests_stored_location_witness:
  "outcome (Update (NewButton (Shape pressButton) []) (frame NoClick 50 50)) = Returned
   \<and> outcome (Update (pressButton\<lparr>Behaviour := 6\<rparr>) (frame NoClick 50 50)) \<noteq> Returned
   \<and> IsWithin (Shape pressButton) (MouseLocation (win (frame NoClick 50 50))) = False
   \<and> IsHovering (NewButton (Shape pressButton) []) = True
   \<and> IsHovering (button (Update (NewButton (Shape pressButton) []) (frame NoClick 50 50))) = False
   \<and> IsHovering (button (Update (pressButton\<lparr>Behaviour := 6\<rparr>) (frame NoClick 50 50))) = True"
proof -
  let ?nb = "NewButton (Shape pressButton) []"
  let ?bad = "pressButton\<lparr>Behaviour := 6\<rparr>"
  let ?far = "frame NoClick 50 50"
  have ret: "outcome (Update ?nb ?far) = Returned"
    by (simp add: Update_def NewButton_def storeHistory_def callCB_def)
  have pan: "outcome (Update ?bad ?far) \<noteq> Returned"
    by (simp add: Update_def behaviour_defs)
  have loc: "MouseLocation (win (world (Update ?nb ?far))) = \<lparr>X = 50, Y = 50\<rparr>"
    by (simp add: Update_def NewButton_def storeHistory_def callCB_def frame_def)
  have sh: "Shape ?nb = Shape pressButton"
    by (simp add: NewButton_def)
  have inside: "IsWithin (Shape pressButton) \<lparr>X = 0, Y = 0\<rparr>"
    and outside: "\<not> IsWithin (Shape pressButton) \<lparr>X = 50, Y = 50\<rparr>"
    by (simp_all add: pressButton_def)
  have here: "IsHovering pressButton"
    using inside by (simp add: IsHovering_def pressButton_def)
  have far: "MouseLocation (win ?far) = \<lparr>X = 50, Y = 50\<rparr>"
    by (simp add: frame_def)
  note fresh = IsHovering_tests_stored_location [of ?nb "Shape pressButton" "[]" ?far]
  note broken = IsHovering_tests_stored_location [of ?bad "Shape pressButton" "[]" ?far]
  have 1: "IsHovering ?nb = True"
    using fresh [THEN conjunct2, THEN conjunct1] inside by simp
  have 2: "IsHovering (button (Update ?nb ?far)) = False"
    using fresh [THEN conjunct2, THEN conjunct2, THEN conjunct1] ret outside
    by (simp add: loc sh)
  have "IsHovering ?bad = True"
    using here by (simp add: IsHovering_def)
  with broken [THEN conjunct2, THEN conjunct2, THEN conjunct2] pan
  have 3: "IsHovering (button (Update ?bad ?far)) = True"
    by simp
  show ?thesis
    using ret pan outside 1 2 3 by (simp add: far)
qed

end
